theory Spec2Isabelle
  imports Main
begin

section \<open>Voice relay: caller channel, AI channel and the session store\<close>

text \<open>
  The program is the relay server of \<^verbatim>\<open>src/unnamed/part_000\<close>: the functions
  \<^verbatim>\<open>connectOpenAI\<close>, \<^verbatim>\<open>finalizeAndNotify\<close> and the handler
  \<^verbatim>\<open>wss.on('connection')\<close> with the five event handlers it registers. The
  handler is repeated in \<^verbatim>\<open>src/ai_voice_relay_server.js\<close> (lines 165-289) with
  another greeting text; there it also maintains three diagnostic frame counters and a timer
  that prints them, which are written by the handlers and read by the timer's log line only,
  and are not part of the embedding. Lines 56-136 of that file are a copy of a handler body at
  module level, outside every function; it is not reachable from any event and is not
  embedded.
\<close>

subsection \<open>Values parsed from JSON\<close>

text \<open>
  The result of \<^verbatim>\<open>JSON.parse\<close>, together with \<^verbatim>\<open>undefined\<close>, which
  reading an absent property yields. Numbers are integers here; the relay never calculates
  with them. An object is the list of its members in source order; a later member of the
  same name overrides an earlier one, as \<^verbatim>\<open>JSON.parse\<close> does.
\<close>

datatype jsval =
    Undefined
  | Null
  | Bool bool
  | Num int
  | Str string
  | Arr "jsval list"
  | Obj "(string \<times> jsval) list"

text \<open>JavaScript's ToBoolean, which \<^verbatim>\<open>if\<close>, \<^verbatim>\<open>&&\<close>, \<^verbatim>\<open>||\<close> and \<^verbatim>\<open>!\<close> apply.\<close>

fun truthy :: "jsval \<Rightarrow> bool" where
  "truthy Undefined = False"
| "truthy Null = False"
| "truthy (Bool b) = b"
| "truthy (Num n) = (n \<noteq> 0)"
| "truthy (Str s) = (s \<noteq> [])"
| "truthy (Arr xs) = True"
| "truthy (Obj kvs) = True"

text \<open>
  \<^verbatim>\<open>v?.k\<close> for the property names the relay reads (event, start, streamSid, media,
  payload, type, audio, delta, text, from, fields): the member of an object, and
  \<^verbatim>\<open>undefined\<close> on everything else. The plain \<^verbatim>\<open>v.k\<close> differs only in
  throwing a TypeError on \<^verbatim>\<open>null\<close> and \<^verbatim>\<open>undefined\<close>; the handlers below
  test for that case where the source uses the plain form.
\<close>

fun get_prop :: "jsval \<Rightarrow> string \<Rightarrow> jsval" where
  "get_prop (Obj kvs) k = (case map_of (rev kvs) k of Some v \<Rightarrow> v | None \<Rightarrow> Undefined)"
| "get_prop v k = Undefined"

text \<open>\<^verbatim>\<open>a || b\<close>\<close>

definition js_or :: "jsval \<Rightarrow> jsval \<Rightarrow> jsval" where
  "js_or a b = (if truthy a then a else b)"

text \<open>The decimal numeral of a number, as string interpolation and array indices print it.\<close>

fun dec :: "nat \<Rightarrow> string" where
  "dec n = (if n < 10 then [char_of (48 + n)] else dec (n div 10) @ [char_of (48 + n mod 10)])"

declare dec.simps [simp del]

text \<open>
  The own enumerable properties of a value, in the order \<^verbatim>\<open>Object.assign\<close> copies
  them: the members of an object, the indices of an array or of a string, and none for the
  other values.
\<close>

fun own_props :: "jsval \<Rightarrow> (string \<times> jsval) list" where
  "own_props (Obj kvs) = kvs"
| "own_props (Arr xs) = zip (map dec [0..<length xs]) xs"
| "own_props (Str s) = zip (map dec [0..<length s]) (map (\<lambda>c. Str [c]) s)"
| "own_props v = []"

text \<open>
  \<^verbatim>\<open>Object.assign(target, source)\<close> stores every own property of the source in turn
  with an ordinary assignment \<^verbatim>\<open>target[k] = v\<close>. The target is
  \<^verbatim>\<open>session.fields\<close>, created as \<^verbatim>\<open>{}\<close>: the map of its own properties
  together with its prototype, which is \<^verbatim>\<open>Object.prototype\<close> at first.

  An assignment creates or overwrites the own property, for every name but one:
  \<^verbatim>\<open>__proto__\<close> is an accessor of \<^verbatim>\<open>Object.prototype\<close>, and as long as the
  target has no own property of that name and the lookup along its prototype chain reaches
  that accessor, the assignment runs the accessor's setter instead. The setter replaces the
  prototype of the target when the value is an object, an array or \<^verbatim>\<open>null\<close>, and does
  nothing for any other value; no own property is created. The lookup does not reach the
  accessor when the prototype has been set to \<^verbatim>\<open>null\<close>, or to an object parsed from
  JSON that has a member \<^verbatim>\<open>__proto__\<close> of its own (\<^verbatim>\<open>JSON.parse\<close> defines it as
  a plain property).
\<close>

datatype proto =
    ObjectPrototype
  | NullPrototype
  | ValuePrototype jsval

fun proto_setter :: "jsval \<Rightarrow> proto \<Rightarrow> proto" where
  "proto_setter (Obj kvs) p = ValuePrototype (Obj kvs)"
| "proto_setter (Arr xs) p = ValuePrototype (Arr xs)"
| "proto_setter Null p = NullPrototype"
| "proto_setter v p = p"

fun inherits_accessor :: "proto \<Rightarrow> bool" where
  "inherits_accessor ObjectPrototype = True"
| "inherits_accessor NullPrototype = False"
| "inherits_accessor (ValuePrototype (Obj kvs)) = (map_of kvs ''__proto__'' = None)"
| "inherits_accessor (ValuePrototype v) = True"

definition set_prop ::
  "(string \<rightharpoonup> jsval) \<times> proto \<Rightarrow> string \<Rightarrow> jsval \<Rightarrow> (string \<rightharpoonup> jsval) \<times> proto" where
  "set_prop target k v =
     (if k = ''__proto__'' \<and> fst target k = None \<and> inherits_accessor (snd target)
      then (fst target, proto_setter v (snd target))
      else ((fst target)(k \<mapsto> v), snd target))"

fun assign_props ::
  "(string \<rightharpoonup> jsval) \<times> proto \<Rightarrow> (string \<times> jsval) list \<Rightarrow> (string \<rightharpoonup> jsval) \<times> proto" where
  "assign_props target [] = target"
| "assign_props target ((k, v) # kvs) = assign_props (set_prop target k v) kvs"

definition object_assign ::
  "(string \<rightharpoonup> jsval) \<times> proto \<Rightarrow> jsval \<Rightarrow> (string \<rightharpoonup> jsval) \<times> proto" where
  "object_assign target source = assign_props target (own_props source)"

subsection \<open>Sessions and the session store\<close>

text \<open>One element of \<^verbatim>\<open>session.transcript\<close>: \<^verbatim>\<open>{ from, text, t }\<close>.\<close>

record entry =
  e_from :: jsval
  e_text :: jsval
  e_t :: nat

text \<open>
  \<^verbatim>\<open>{ transcript: [], fields: {}, start: Date.now() }\<close>. The source's
  \<^verbatim>\<open>fields\<close> object is \<open>s_fields\<close>, the map of its own properties, which is
  what \<^verbatim>\<open>JSON.stringify\<close> writes into the summary, and \<open>s_proto\<close>, its prototype.
\<close>

record session =
  transcript :: "entry list"
  s_fields :: "string \<rightharpoonup> jsval"
  s_proto :: proto
  start :: nat

definition fresh_session :: "nat \<Rightarrow> session" where
  "fresh_session now =
     \<lparr> transcript = [], s_fields = Map.empty, s_proto = ObjectPrototype, start = now \<rparr>"

text \<open>
  \<^verbatim>\<open>const sessions = new Map()\<close> holds references: a handler keeps the session
  object it looked up and mutates it in place, and the map may later be given another object
  under the same key. So the store is a map from call identifiers to addresses, and a heap
  from addresses to session objects; \<open>nextAddr\<close> is the first address not yet used.
\<close>

type_synonym addr = nat

record world =
  sessions :: "string \<rightharpoonup> addr"
  heap :: "addr \<Rightarrow> session"
  nextAddr :: addr

definition empty_world :: world where
  "empty_world = \<lparr> sessions = Map.empty, heap = (\<lambda>a. fresh_session 0), nextAddr = 0 \<rparr>"

text \<open>\<^verbatim>\<open>sessions.set(callSid, { transcript: [], fields: {}, start: Date.now() })\<close> of the /voice route.\<close>

definition voice_post :: "string \<Rightarrow> nat \<Rightarrow> world \<Rightarrow> world" where
  "voice_post callSid now w =
     w\<lparr> sessions := (sessions w)(callSid \<mapsto> nextAddr w),
        heap := (heap w)(nextAddr w := fresh_session now),
        nextAddr := Suc (nextAddr w) \<rparr>"

text \<open>In-place mutation of the session object at an address.\<close>

definition update_session :: "addr \<Rightarrow> (session \<Rightarrow> session) \<Rightarrow> world \<Rightarrow> world" where
  "update_session a f w = w\<lparr> heap := (heap w)(a := f (heap w a)) \<rparr>"

subsection \<open>What a handler does to the outside\<close>

text \<open>
  The calls on the two sockets. The argument of a send is the object handed to
  \<^verbatim>\<open>JSON.stringify\<close>.
\<close>

datatype action =
    AiSend jsval
  | TwilioSend jsval
  | AiClose
  | TwilioClose

datatype level = Info | Warning | Error

text \<open>The body of the summary request: \<^verbatim>\<open>{ callSid, startedAt, endedAt, transcript, fields }\<close>.\<close>

record summary =
  p_callSid :: string
  startedAt :: nat
  endedAt :: nat
  p_transcript :: "entry list"
  p_fields :: "string \<rightharpoonup> jsval"

text \<open>
  The trace a handler leaves: a call on a socket (recorded when it is attempted, whether or
  not it throws), a console line with its level and first argument, the call of
  \<^verbatim>\<open>fetch\<close> with its address and body, the entry into
  \<^verbatim>\<open>finalizeAndNotify\<close> with its argument, and an exception that no handler
  catches.
\<close>

datatype effect =
    Call action
  | Console level string
  | Fetch string summary
  | Finalize string
  | Uncaught

text \<open>
  A sequence of socket calls, each of which may throw. The environment decides which call
  throws (\<open>th\<close>); a command is the trace it leaves and whether it ended by throwing.
  \<open>perform\<close> is one call, \<open>guarded\<close> is \<^verbatim>\<open>try { c } catch {}\<close>,
  \<open>andthen\<close> is \<^verbatim>\<open>c1; c2\<close>, which does not reach \<open>c2\<close> when \<open>c1\<close> throws.
\<close>

type_synonym cmd = "effect list \<times> bool"

definition skip :: cmd where
  "skip = ([], False)"

definition perform :: "(action \<Rightarrow> bool) \<Rightarrow> action \<Rightarrow> cmd" where
  "perform th a = ([Call a], th a)"

definition guarded :: "cmd \<Rightarrow> cmd" where
  "guarded c = (fst c, False)"

definition andthen :: "cmd \<Rightarrow> cmd \<Rightarrow> cmd" where
  "andthen c1 c2 = (if snd c1 then c1 else (fst c1 @ fst c2, snd c2))"

definition console :: "level \<Rightarrow> string \<Rightarrow> cmd" where
  "console l s = ([Console l s], False)"

subsection \<open>Configuration\<close>

text \<open>
  \<^verbatim>\<open>process.env.N8N_SUMMARY_WEBHOOK\<close> is a string or absent, and
  \<^verbatim>\<open>!N8N_SUMMARY_WEBHOOK\<close> holds when it is absent or empty.
\<close>

record config =
  N8N_SUMMARY_WEBHOOK :: "string option"
  SYSTEM_PROMPT :: string

definition webhook_set :: "config \<Rightarrow> bool" where
  "webhook_set cfg = (case N8N_SUMMARY_WEBHOOK cfg of None \<Rightarrow> False | Some u \<Rightarrow> u \<noteq> [])"

subsection \<open>The messages the relay sends\<close>

definition session_config :: "string \<Rightarrow> jsval" where
  "session_config systemPrompt =
     Obj [(''type'', Str ''session.update''),
          (''session'', Obj [(''instructions'', Str systemPrompt),
                             (''modalities'', Arr [Str ''audio'', Str ''text'']),
                             (''input_audio_format'',
                                Obj [(''type'', Str ''g711_ulaw''), (''sample_rate_hz'', Num 8000)]),
                             (''output_audio_format'',
                                Obj [(''type'', Str ''g711_ulaw''), (''sample_rate_hz'', Num 8000)])])]"

definition greeting :: jsval where
  "greeting =
     Obj [(''type'', Str ''response.create''),
          (''response'', Obj [(''instructions'',
             Str ''Inizia con un saluto di benvenuto e chiedi come puoi aiutare.'')])]"

definition audio_append :: "jsval \<Rightarrow> jsval" where
  "audio_append payload =
     Obj [(''type'', Str ''input_audio_buffer.append''), (''audio'', payload)]"

definition audio_commit :: jsval where
  "audio_commit = Obj [(''type'', Str ''input_audio_buffer.commit'')]"

definition closing_response :: jsval where
  "closing_response =
     Obj [(''type'', Str ''response.create''),
          (''response'', Obj [(''instructions'', Str ''fine chiamata'')])]"

definition media_event :: "jsval \<Rightarrow> jsval \<Rightarrow> jsval" where
  "media_event sid payload =
     Obj [(''event'', Str ''media''), (''streamSid'', sid),
          (''media'', Obj [(''payload'', payload)])]"

subsection \<open>finalizeAndNotify\<close>

text \<open>
  \<^verbatim>\<open>async function finalizeAndNotify(callSid)\<close>, up to its \<^verbatim>\<open>await\<close>: the
  lookup, the guard, the body built from the session and the clock, and the call of
  \<^verbatim>\<open>fetch\<close>. It writes to nothing, so its result is the trace alone. The console line
  after the \<^verbatim>\<open>await\<close> is \<open>fetch_settled\<close>.
\<close>

definition finalizeAndNotify :: "config \<Rightarrow> string \<Rightarrow> nat \<Rightarrow> world \<Rightarrow> effect list" where
  "finalizeAndNotify cfg callSid now w =
     (case sessions w callSid of
        None \<Rightarrow> []
      | Some a \<Rightarrow>
          (case N8N_SUMMARY_WEBHOOK cfg of
             None \<Rightarrow> []
           | Some url \<Rightarrow>
               if url = [] then []
               else [Fetch url \<lparr> p_callSid = callSid,
                                 startedAt = start (heap w a),
                                 endedAt = now,
                                 p_transcript = transcript (heap w a),
                                 p_fields = s_fields (heap w a) \<rparr>]))"

definition fetch_settled :: "bool \<Rightarrow> effect list" where
  "fetch_settled ok =
     (if ok then [Console Info ''[n8n] summary POSTed for'']
      else [Console Error ''[n8n] POST failed:''])"

subsection \<open>The state of one relay\<close>

text \<open>
  The variables that the closure of \<^verbatim>\<open>wss.on('connection')\<close> holds for one caller
  socket, and which of its handlers are registered. \<open>aiWS\<close> is whether the variable holds
  a socket (it is \<^verbatim>\<open>null\<close> before). \<open>awaiting\<close> is whether the promise of
  \<^verbatim>\<open>connectOpenAI\<close> is still pending. \<open>onAi\<close> stands for
  \<^verbatim>\<open>aiWS.on('message')\<close> and \<^verbatim>\<open>aiWS.on('close')\<close>, \<open>onTwilioClose\<close> for
  \<^verbatim>\<open>twilioWS.on('close')\<close>. \<^verbatim>\<open>twilioWS.on('message')\<close> is registered before
  the \<^verbatim>\<open>await\<close>, so from the start.
\<close>

record relay =
  callSid :: string
  session :: addr
  streamSid :: jsval
  aiWS :: bool
  aiReady :: bool
  awaiting :: bool
  onAi :: bool
  onTwilioClose :: bool

text \<open>
  The handler of \<^verbatim>\<open>wss.on('connection')\<close> up to the \<^verbatim>\<open>await\<close>. \<open>param\<close> is
  \<^verbatim>\<open>url.searchParams.get('callSid')\<close>, \<open>now\<close> is \<^verbatim>\<open>Date.now()\<close>.
\<close>

definition wss_connection :: "string option \<Rightarrow> nat \<Rightarrow> world \<Rightarrow> relay \<times> world" where
  "wss_connection param now w =
     (let sid = (case param of
                   None \<Rightarrow> ''call_'' @ dec now
                 | Some s \<Rightarrow> if s = [] then ''call_'' @ dec now else s);
          found = sessions w sid;
          a = (case found of Some a \<Rightarrow> a | None \<Rightarrow> nextAddr w);
          w1 = (case found of
                  Some a \<Rightarrow> w
                | None \<Rightarrow> w\<lparr> heap := (heap w)(nextAddr w := fresh_session now),
                              nextAddr := Suc (nextAddr w) \<rparr>)
      in (\<lparr> callSid = sid, session = a, streamSid = Null, aiWS = False, aiReady = False,
             awaiting = True, onAi = False, onTwilioClose = False \<rparr>,
          w1\<lparr> sessions := (sessions w1)(sid \<mapsto> a) \<rparr>))"

subsection \<open>The handlers\<close>

text \<open>
  \<^verbatim>\<open>twilioWS.on('message')\<close>. The argument is the result of \<^verbatim>\<open>JSON.parse\<close>,
  \<open>None\<close> when it throws. Reading \<^verbatim>\<open>msg.event\<close> of \<^verbatim>\<open>null\<close> throws as well;
  both end in the handler's \<^verbatim>\<open>catch\<close>, which prints a line. The handler reads and
  writes the relay's variables only.
\<close>

definition teardown :: "(action \<Rightarrow> bool) \<Rightarrow> relay \<Rightarrow> cmd" where
  "teardown th r =
     andthen
       (if aiWS r
        then andthen (guarded (perform th (AiSend audio_commit)))
               (andthen (guarded (perform th (AiSend closing_response)))
                  (guarded (perform th AiClose)))
        else skip)
       (guarded (perform th TwilioClose))"

definition twilio_message :: "(action \<Rightarrow> bool) \<Rightarrow> jsval option \<Rightarrow> relay \<Rightarrow> relay \<times> effect list" where
  "twilio_message th raw r =
     (case raw of
        None \<Rightarrow> (r, [Console Error ''WS parse error:''])
      | Some msg \<Rightarrow>
          if msg = Null \<or> msg = Undefined then (r, [Console Error ''WS parse error:''])
          else if get_prop msg ''event'' = Str ''start'' then
            (r\<lparr> streamSid :=
                   js_or (js_or (get_prop (get_prop msg ''start'') ''streamSid'')
                                (get_prop msg ''streamSid''))
                         Null \<rparr>,
             [Console Info ''[Twilio] START''])
          else if get_prop msg ''event'' = Str ''media''
                  \<and> truthy (get_prop (get_prop msg ''media'') ''payload'') then
            (if aiReady r \<and> aiWS r then
               (let c = perform th (AiSend (audio_append (get_prop (get_prop msg ''media'') ''payload'')))
                in (r, fst c @ (if snd c then [Console Error ''WS parse error:''] else [])))
             else (r, []))
          else if get_prop msg ''event'' = Str ''stop'' then
            (r, fst (andthen (console Info ''[Twilio] STOP'') (teardown th r)))
          else (r, []))"

text \<open>
  \<^verbatim>\<open>connectOpenAI\<close> resolves in the socket's \<^verbatim>\<open>open\<close> handler, after the
  configuration is sent, and the handler of \<^verbatim>\<open>wss.on('connection')\<close> resumes after
  its \<^verbatim>\<open>await\<close> before any other socket event is delivered: the two run as one step.
  A send that throws inside the \<^verbatim>\<open>open\<close> handler is caught by nobody and leaves the
  promise pending. A greeting that throws is caught by the \<^verbatim>\<open>catch\<close> around the
  connection, which closes the caller socket and returns before any handler is registered.
\<close>

definition ai_open :: "config \<Rightarrow> (action \<Rightarrow> bool) \<Rightarrow> relay \<Rightarrow> relay \<times> effect list" where
  "ai_open cfg th r =
     (if \<not> awaiting r then (r, [])
      else
        (let c0 = perform th (AiSend (session_config (SYSTEM_PROMPT cfg)))
         in if snd c0 then (r, fst c0 @ [Uncaught])
            else
              (let r1 = r\<lparr> awaiting := False, aiWS := True, aiReady := True \<rparr>;
                   c1 = andthen (console Info ''[OpenAI] realtime socket connected'')
                                (perform th (AiSend greeting))
               in if snd c1
                  then (r1, fst c0 @ fst c1
                            @ fst (andthen (console Error ''[OpenAI] WS error at connect:'')
                                           (guarded (perform th TwilioClose))))
                  else (r1\<lparr> onAi := True, onTwilioClose := True \<rparr>, fst c0 @ fst c1))))"

text \<open>
  The socket's \<^verbatim>\<open>error\<close> event rejects the promise; if the promise is settled already
  this does nothing. The rejection is the \<^verbatim>\<open>catch\<close> around the connection.
\<close>

definition ai_error :: "(action \<Rightarrow> bool) \<Rightarrow> relay \<Rightarrow> relay \<times> effect list" where
  "ai_error th r =
     (if \<not> awaiting r then (r, [])
      else (r\<lparr> awaiting := False \<rparr>,
            fst (andthen (console Error ''[OpenAI] WS error at connect:'')
                         (guarded (perform th TwilioClose)))))"

text \<open>
  \<^verbatim>\<open>aiWS.on('message')\<close>. Everything runs inside one \<^verbatim>\<open>try\<close> with an empty
  \<^verbatim>\<open>catch\<close>: a message that does not parse, a \<^verbatim>\<open>null\<close> message and a send
  that throws all end the handler without a trace of their own, and the statements after
  the point of the exception are not reached.
\<close>

definition isAudioDelta :: "jsval \<Rightarrow> bool" where
  "isAudioDelta msg =
     ((get_prop msg ''type'' = Str ''response.audio.delta'' \<and> truthy (get_prop msg ''audio''))
      \<or> (get_prop msg ''type'' = Str ''response.output_audio.delta'' \<and> truthy (get_prop msg ''delta'')))"

definition audioPayload :: "jsval \<Rightarrow> jsval" where
  "audioPayload msg = js_or (get_prop msg ''audio'') (get_prop msg ''delta'')"

definition forward_audio :: "(action \<Rightarrow> bool) \<Rightarrow> jsval \<Rightarrow> relay \<Rightarrow> cmd" where
  "forward_audio th msg r =
     (if isAudioDelta msg \<and> truthy (audioPayload msg) then
        (if truthy (streamSid r)
         then perform th (TwilioSend (media_event (streamSid r) (audioPayload msg)))
         else console Warning ''[Twilio] missing streamSid; audio skipped'')
      else skip)"

definition push_transcript :: "jsval \<Rightarrow> nat \<Rightarrow> session \<Rightarrow> session" where
  "push_transcript msg now s =
     (if get_prop msg ''type'' = Str ''transcript.delta'' \<and> truthy (get_prop msg ''text'')
      then s\<lparr> transcript := transcript s @
                 [\<lparr> e_from = js_or (get_prop msg ''from'') (Str ''agent''),
                    e_text = get_prop msg ''text'',
                    e_t = now \<rparr>] \<rparr>
      else s)"

definition merge_fields :: "jsval \<Rightarrow> session \<Rightarrow> session" where
  "merge_fields msg s =
     (if get_prop msg ''type'' = Str ''extracted.fields'' \<and> truthy (get_prop msg ''fields'')
      then (case object_assign (s_fields s, s_proto s) (get_prop msg ''fields'') of
              (m, p) \<Rightarrow> s\<lparr> s_fields := m, s_proto := p \<rparr>)
      else s)"

definition ai_message ::
  "(action \<Rightarrow> bool) \<Rightarrow> nat \<Rightarrow> jsval option \<Rightarrow> relay \<Rightarrow> world \<Rightarrow> world \<times> effect list" where
  "ai_message th now raw r w =
     (case raw of
        None \<Rightarrow> (w, [])
      | Some msg \<Rightarrow>
          if msg = Null \<or> msg = Undefined then (w, [])
          else
            (let c = forward_audio th msg r
             in if snd c then (w, fst c)
                else (update_session (session r)
                        (\<lambda>s. merge_fields msg (push_transcript msg now s)) w,
                      fst c)))"

text \<open>\<^verbatim>\<open>aiWS.on('close')\<close>\<close>

definition ai_close :: "(action \<Rightarrow> bool) \<Rightarrow> effect list" where
  "ai_close th = fst (guarded (perform th TwilioClose))"

text \<open>
  \<^verbatim>\<open>twilioWS.on('close')\<close>: the call of \<^verbatim>\<open>finalizeAndNotify\<close>, whose promise is
  dropped, then \<^verbatim>\<open>aiWS?.close()\<close> under its own \<^verbatim>\<open>try\<close>.
\<close>

definition twilio_close :: "config \<Rightarrow> (action \<Rightarrow> bool) \<Rightarrow> nat \<Rightarrow> relay \<Rightarrow> world \<Rightarrow> effect list" where
  "twilio_close cfg th now r w =
     Finalize (callSid r) # finalizeAndNotify cfg (callSid r) now w
       @ fst (if aiWS r then guarded (perform th AiClose) else skip)"

subsection \<open>Events and runs\<close>

text \<open>
  What the event loop can deliver to one relay: a message or the close of either socket, the
  outcome of the connection attempt, and the outcome of a summary request. An input is an
  event together with the clock and with the choice of which socket calls throw while it is
  handled. An event whose handler is not registered is delivered to nobody.
\<close>

datatype event =
    TwilioMessage "jsval option"
  | TwilioClosed
  | AiOpen
  | AiError
  | AiMessage "jsval option"
  | AiClosed
  | FetchSettled bool

type_synonym input = "event \<times> nat \<times> (action \<Rightarrow> bool)"

fun step :: "config \<Rightarrow> input \<Rightarrow> relay \<times> world \<Rightarrow> (relay \<times> world) \<times> effect list" where
  "step cfg (TwilioMessage raw, now, th) (r, w) =
     (case twilio_message th raw r of (r1, es) \<Rightarrow> ((r1, w), es))"
| "step cfg (TwilioClosed, now, th) (r, w) =
     (if onTwilioClose r then ((r, w), twilio_close cfg th now r w) else ((r, w), []))"
| "step cfg (AiOpen, now, th) (r, w) =
     (case ai_open cfg th r of (r1, es) \<Rightarrow> ((r1, w), es))"
| "step cfg (AiError, now, th) (r, w) =
     (case ai_error th r of (r1, es) \<Rightarrow> ((r1, w), es))"
| "step cfg (AiMessage raw, now, th) (r, w) =
     (if onAi r then (case ai_message th now raw r w of (w1, es) \<Rightarrow> ((r, w1), es))
      else ((r, w), []))"
| "step cfg (AiClosed, now, th) (r, w) =
     (if onAi r then ((r, w), ai_close th) else ((r, w), []))"
| "step cfg (FetchSettled ok, now, th) (r, w) = ((r, w), fetch_settled ok)"

fun run :: "config \<Rightarrow> input list \<Rightarrow> relay \<times> world \<Rightarrow> (relay \<times> world) \<times> effect list" where
  "run cfg [] s = (s, [])"
| "run cfg (i # is) s =
     (case step cfg i s of (s1, es1) \<Rightarrow>
        (case run cfg is s1 of (s2, es2) \<Rightarrow> (s2, es1 @ es2)))"

text \<open>Projections of an effect trace.\<close>

fun is_twilio_send :: "effect \<Rightarrow> bool" where
  "is_twilio_send (Call (TwilioSend m)) = True"
| "is_twilio_send e = False"

fun is_fetch :: "effect \<Rightarrow> bool" where
  "is_fetch (Fetch url b) = True"
| "is_fetch e = False"

fun is_finalize :: "effect \<Rightarrow> bool" where
  "is_finalize (Finalize c) = True"
| "is_finalize e = False"

subsection \<open>Readings of inputs and effects\<close>

text \<open>
  \<open>has_route\<close>: a message sent to the caller socket is a media event whose
  \<^verbatim>\<open>streamSid\<close> is truthy, so neither \<^verbatim>\<open>null\<close> nor absent; every other
  effect passes. \<open>supplies_route\<close>: the input is a start event of the caller that carries
  a truthy stream identifier in one of the two places the handler reads.
  \<open>delta_entry\<close>: the transcript entry a received AI event stands for, if it is a
  \<^verbatim>\<open>transcript.delta\<close> with a text: its \<^verbatim>\<open>from\<close>, or \<^verbatim>\<open>'agent'\<close>
  when it has none, its text, and the time of receipt. \<open>field_write\<close>: the value a
  received AI event holds for a key, if it is an \<^verbatim>\<open>extracted.fields\<close> event whose
  field map contains the key.
\<close>

fun has_route :: "effect \<Rightarrow> bool" where
  "has_route (Call (TwilioSend m)) =
     (get_prop m ''event'' = Str ''media'' \<and> truthy (get_prop m ''streamSid'')
      \<and> get_prop m ''streamSid'' \<noteq> Null)"
| "has_route e = True"

fun supplies_route :: "input \<Rightarrow> bool" where
  "supplies_route (TwilioMessage (Some msg), now, th) =
     (get_prop msg ''event'' = Str ''start''
      \<and> truthy (js_or (get_prop (get_prop msg ''start'') ''streamSid'') (get_prop msg ''streamSid'')))"
| "supplies_route i = False"

fun delta_entry :: "input \<Rightarrow> entry option" where
  "delta_entry (AiMessage (Some msg), now, th) =
     (if get_prop msg ''type'' = Str ''transcript.delta'' \<and> truthy (get_prop msg ''text'')
      then Some \<lparr> e_from = (if truthy (get_prop msg ''from'') then get_prop msg ''from'' else Str ''agent''),
                  e_text = get_prop msg ''text'',
                  e_t = now \<rparr>
      else None)"
| "delta_entry i = None"

fun field_write :: "string \<Rightarrow> input \<Rightarrow> jsval option" where
  "field_write k (AiMessage (Some msg), now, th) =
     (if get_prop msg ''type'' = Str ''extracted.fields'' \<and> truthy (get_prop msg ''fields'')
      then map_of (rev (own_props (get_prop msg ''fields''))) k
      else None)"
| "field_write k i = None"

subsection \<open>Concrete calls\<close>

text \<open>
  Two environments (no socket call throws; every socket call throws), two configurations, the
  messages of a short call, and the states the call goes through: the relay as
  \<^verbatim>\<open>wss.on('connection')\<close> leaves it, after the AI socket opened, after the caller's
  start event, and after both sockets closed.
\<close>

definition no_fault :: "action \<Rightarrow> bool" where
  "no_fault a = False"

definition all_fault :: "action \<Rightarrow> bool" where
  "all_fault a = True"

definition cfg_hook :: config where
  "cfg_hook = \<lparr> N8N_SUMMARY_WEBHOOK = Some ''https://n8n.example/summary'', SYSTEM_PROMPT = ''Rispondi in italiano.'' \<rparr>"

definition cfg_nohook :: config where
  "cfg_nohook = \<lparr> N8N_SUMMARY_WEBHOOK = None, SYSTEM_PROMPT = ''Rispondi in italiano.'' \<rparr>"

definition start_msg :: jsval where
  "start_msg = Obj [(''event'', Str ''start''), (''start'', Obj [(''streamSid'', Str ''SX1'')])]"

definition media_msg :: jsval where
  "media_msg = Obj [(''event'', Str ''media''), (''media'', Obj [(''payload'', Str ''fn5+'')])]"

definition stop_msg :: jsval where
  "stop_msg = Obj [(''event'', Str ''stop'')]"

definition transcript_msg :: jsval where
  "transcript_msg = Obj [(''type'', Str ''transcript.delta''), (''text'', Str ''Buongiorno'')]"

definition caller_msg :: jsval where
  "caller_msg = Obj [(''type'', Str ''transcript.delta''), (''from'', Str ''caller''), (''text'', Str ''Salve'')]"

definition audio_msg :: jsval where
  "audio_msg = Obj [(''type'', Str ''response.audio.delta''), (''audio'', Str ''fn5+'')]"

definition output_audio_msg :: jsval where
  "output_audio_msg = Obj [(''type'', Str ''response.output_audio.delta''), (''delta'', Str ''fn5+'')]"

definition fields_a1 :: jsval where
  "fields_a1 = Obj [(''type'', Str ''extracted.fields''), (''fields'', Obj [(''a'', Num 1)])]"

definition fields_a2b3 :: jsval where
  "fields_a2b3 =
     Obj [(''type'', Str ''extracted.fields''), (''fields'', Obj [(''a'', Num 2), (''b'', Num 3)])]"

definition proto_fields_msg :: jsval where
  "proto_fields_msg =
     Obj [(''type'', Str ''extracted.fields''),
          (''fields'', Obj [(''__proto__'', Obj [(''x'', Num 1)])])]"

definition both_fields_msg :: jsval where
  "both_fields_msg =
     Obj [(''type'', Str ''response.output_audio.delta''),
          (''audio'', Str ''QUFB''), (''delta'', Str ''QkJC'')]"

definition crossed_msg :: jsval where
  "crossed_msg = Obj [(''type'', Str ''response.audio.delta''), (''delta'', Str ''fn5+'')]"

definition first_world :: world where
  "first_world = \<lparr> sessions = [''CA1'' \<mapsto> 0],
                    heap = (\<lambda>a. fresh_session 0)(0 := fresh_session 9),
                    nextAddr = 1 \<rparr>"

definition connecting_state :: "relay \<times> world" where
  "connecting_state = wss_connection (Some ''CA1'') 9 empty_world"

definition opening_trace :: "input list" where
  "opening_trace = [(AiOpen, 10, no_fault), (TwilioMessage (Some start_msg), 11, no_fault)]"

definition closing_trace :: "input list" where
  "closing_trace =
     [(AiMessage (Some transcript_msg), 12, no_fault),
      (TwilioMessage (Some stop_msg), 13, no_fault),
      (AiClosed, 14, no_fault),
      (TwilioClosed, 15, no_fault)]"

definition call_trace :: "input list" where
  "call_trace = opening_trace @ closing_trace"

definition unrouted_state :: "relay \<times> world" where
  "unrouted_state = fst (run cfg_hook [(AiOpen, 10, no_fault)] connecting_state)"

definition active_state :: "relay \<times> world" where
  "active_state = fst (run cfg_hook opening_trace connecting_state)"

definition finished_state :: "relay \<times> world" where
  "finished_state = fst (run cfg_hook closing_trace active_state)"

definition early_audio_trace :: "input list" where
  "early_audio_trace =
     [(AiOpen, 10, no_fault),
      (AiMessage (Some audio_msg), 11, no_fault),
      (AiMessage (Some output_audio_msg), 12, no_fault)]"

definition failed_connect_trace :: "input list" where
  "failed_connect_trace =
     [(TwilioMessage (Some stop_msg), 13, no_fault),
      (TwilioClosed, 14, no_fault),
      (AiOpen, 15, no_fault),
      (TwilioClosed, 16, no_fault)]"

section \<open>Properties\<close>

subsection \<open>Which handler leaves which effect\<close>

lemmas cmd_defs = skip_def perform_def guarded_def andthen_def console_def

lemmas eval_defs =
  wss_connection_def empty_world_def fresh_session_def twilio_message_def teardown_def
  ai_open_def ai_error_def ai_message_def ai_close_def twilio_close_def finalizeAndNotify_def
  fetch_settled_def forward_audio_def isAudioDelta_def audioPayload_def push_transcript_def
  merge_fields_def update_session_def object_assign_def set_prop_def js_or_def webhook_set_def
  skip_def perform_def guarded_def andthen_def console_def no_fault_def Let_def

lemma finalize_fetch_only:
  "e \<in> set (finalizeAndNotify cfg c now w) \<Longrightarrow> is_fetch e \<and> webhook_set cfg \<and> sessions w c \<noteq> None"
  by (cases "sessions w c"; cases "N8N_SUMMARY_WEBHOOK cfg")
     (auto simp: finalizeAndNotify_def webhook_set_def split: if_splits)

lemma twilio_message_effects:
  "e \<in> set (snd (twilio_message th raw r)) \<Longrightarrow> \<not> is_fetch e \<and> \<not> is_finalize e \<and> \<not> is_twilio_send e"
  by (auto simp: twilio_message_def teardown_def cmd_defs Let_def split: option.splits if_splits)

lemma ai_open_effects:
  "e \<in> set (snd (ai_open cfg th r)) \<Longrightarrow> \<not> is_fetch e \<and> \<not> is_finalize e \<and> \<not> is_twilio_send e"
  by (auto simp: ai_open_def cmd_defs Let_def split: option.splits if_splits)

lemma ai_error_effects:
  "e \<in> set (snd (ai_error th r)) \<Longrightarrow> \<not> is_fetch e \<and> \<not> is_finalize e \<and> \<not> is_twilio_send e"
  by (auto simp: ai_error_def cmd_defs Let_def split: option.splits if_splits)

lemma ai_message_effects:
  "e \<in> set (snd (ai_message th now raw r w)) \<Longrightarrow> \<not> is_fetch e \<and> \<not> is_finalize e"
  by (auto simp: ai_message_def forward_audio_def cmd_defs Let_def split: option.splits if_splits)

lemma step_effects:
  "snd (step cfg (ev, now, th) (r, w)) =
     (case ev of
        TwilioMessage raw \<Rightarrow> snd (twilio_message th raw r)
      | TwilioClosed \<Rightarrow> if onTwilioClose r then twilio_close cfg th now r w else []
      | AiOpen \<Rightarrow> snd (ai_open cfg th r)
      | AiError \<Rightarrow> snd (ai_error th r)
      | AiMessage raw \<Rightarrow> if onAi r then snd (ai_message th now raw r w) else []
      | AiClosed \<Rightarrow> if onAi r then ai_close th else []
      | FetchSettled ok \<Rightarrow> fetch_settled ok)"
  by (cases ev) (simp_all split: prod.splits)

lemma step_relay:
  "fst (fst (step cfg (ev, now, th) (r, w))) =
     (case ev of
        TwilioMessage raw \<Rightarrow> fst (twilio_message th raw r)
      | AiOpen \<Rightarrow> fst (ai_open cfg th r)
      | AiError \<Rightarrow> fst (ai_error th r)
      | _ \<Rightarrow> r)"
  by (cases ev) (simp_all split: prod.splits)

lemma step_world:
  "snd (fst (step cfg (ev, now, th) (r, w))) =
     (case ev of
        AiMessage raw \<Rightarrow> if onAi r then fst (ai_message th now raw r w) else w
      | _ \<Rightarrow> w)"
  by (cases ev) (simp_all split: prod.splits)

lemma step_fetch:
  assumes "e \<in> set (snd (step cfg i s))" and "is_fetch e"
  shows "webhook_set cfg \<and> onTwilioClose (fst s)"
proof -
  obtain ev now th where i: "i = (ev, now, th)" by (cases i)
  obtain r w where s: "s = (r, w)" by (cases s)
  from assms show ?thesis
    unfolding i s step_effects
    by (cases ev)
       (auto simp: ai_close_def twilio_close_def fetch_settled_def cmd_defs
             dest: finalize_fetch_only twilio_message_effects ai_open_effects
                   ai_error_effects ai_message_effects
             split: if_splits)
qed

lemma run_effects_induct:
  assumes "\<And>i s e. e \<in> set (snd (step cfg i s)) \<Longrightarrow> P e"
  shows "e \<in> set (snd (run cfg is s)) \<Longrightarrow> P e"
proof (induction "is" arbitrary: s)
  case Nil
  then show ?case by simp
next
  case (Cons i "is")
  obtain s1 es1 where s1: "step cfg i s = (s1, es1)" by (cases "step cfg i s")
  obtain s2 es2 where s2: "run cfg is s1 = (s2, es2)" by (cases "run cfg is s1")
  from Cons.prems s1 s2 have "e \<in> set es1 \<or> e \<in> set es2" by simp
  then show ?case
  proof
    assume "e \<in> set es1"
    with s1 assms [of e i s] show ?thesis by simp
  next
    assume "e \<in> set es2"
    with s2 Cons.IH [of s1] show ?thesis by simp
  qed
qed

lemma run_Cons:
  "run cfg (i # is) s =
     (fst (run cfg is (fst (step cfg i s))), snd (step cfg i s) @ snd (run cfg is (fst (step cfg i s))))"
  by (simp split: prod.splits)

lemma run_append:
  "run cfg (xs @ ys) s =
     (fst (run cfg ys (fst (run cfg xs s))), snd (run cfg xs s) @ snd (run cfg ys (fst (run cfg xs s))))"
proof (induction xs arbitrary: s)
  case Nil
  then show ?case by simp
next
  case (Cons i xs)
  show ?case
    by (simp only: append_Cons run_Cons Cons.IH fst_conv snd_conv append_assoc)
qed

subsection \<open>What a step keeps\<close>

lemma twilio_message_keeps:
  "callSid (fst (twilio_message th raw r)) = callSid r"
  "session (fst (twilio_message th raw r)) = session r"
  "aiWS (fst (twilio_message th raw r)) = aiWS r"
  "aiReady (fst (twilio_message th raw r)) = aiReady r"
  "awaiting (fst (twilio_message th raw r)) = awaiting r"
  "onAi (fst (twilio_message th raw r)) = onAi r"
  "onTwilioClose (fst (twilio_message th raw r)) = onTwilioClose r"
  by (simp_all add: twilio_message_def Let_def split: option.splits)

lemma ai_open_keeps:
  "callSid (fst (ai_open cfg th r)) = callSid r"
  "session (fst (ai_open cfg th r)) = session r"
  "streamSid (fst (ai_open cfg th r)) = streamSid r"
  "onAi r \<Longrightarrow> onAi (fst (ai_open cfg th r))"
  "onTwilioClose r \<Longrightarrow> onTwilioClose (fst (ai_open cfg th r))"
  "\<not> awaiting r \<Longrightarrow> fst (ai_open cfg th r) = r"
  by (simp_all add: ai_open_def Let_def)

lemma ai_error_keeps:
  "callSid (fst (ai_error th r)) = callSid r"
  "session (fst (ai_error th r)) = session r"
  "streamSid (fst (ai_error th r)) = streamSid r"
  "onAi (fst (ai_error th r)) = onAi r"
  "onTwilioClose (fst (ai_error th r)) = onTwilioClose r"
  "\<not> awaiting (fst (ai_error th r))"
  by (simp_all add: ai_error_def Let_def)

lemma step_keeps:
  "callSid (fst (fst (step cfg i s))) = callSid (fst s)"
  "session (fst (fst (step cfg i s))) = session (fst s)"
  "onAi (fst s) \<Longrightarrow> onAi (fst (fst (step cfg i s)))"
  "onTwilioClose (fst s) \<Longrightarrow> onTwilioClose (fst (fst (step cfg i s)))"
proof -
  obtain ev now th where i: "i = (ev, now, th)" by (cases i)
  obtain r w where s: "s = (r, w)" by (cases s)
  show "callSid (fst (fst (step cfg i s))) = callSid (fst s)"
    unfolding i s step_relay
    by (cases ev) (simp_all add: twilio_message_keeps ai_open_keeps ai_error_keeps)
  show "session (fst (fst (step cfg i s))) = session (fst s)"
    unfolding i s step_relay
    by (cases ev) (simp_all add: twilio_message_keeps ai_open_keeps ai_error_keeps)
  show "onAi (fst s) \<Longrightarrow> onAi (fst (fst (step cfg i s)))"
    unfolding i s step_relay
    by (cases ev) (simp_all add: twilio_message_keeps ai_open_keeps ai_error_keeps)
  show "onTwilioClose (fst s) \<Longrightarrow> onTwilioClose (fst (fst (step cfg i s)))"
    unfolding i s step_relay
    by (cases ev) (simp_all add: twilio_message_keeps ai_open_keeps ai_error_keeps)
qed

lemma run_keeps:
  "callSid (fst (fst (run cfg is s))) = callSid (fst s)"
  "session (fst (fst (run cfg is s))) = session (fst s)"
  "onAi (fst s) \<Longrightarrow> onAi (fst (fst (run cfg is s)))"
  "onTwilioClose (fst s) \<Longrightarrow> onTwilioClose (fst (fst (run cfg is s)))"
proof -
  show "callSid (fst (fst (run cfg is s))) = callSid (fst s)"
    by (induction "is" arbitrary: s) (simp_all add: run_Cons step_keeps del: run.simps(2))
  show "session (fst (fst (run cfg is s))) = session (fst s)"
    by (induction "is" arbitrary: s) (simp_all add: run_Cons step_keeps del: run.simps(2))
  show "onAi (fst s) \<Longrightarrow> onAi (fst (fst (run cfg is s)))"
    by (induction "is" arbitrary: s) (simp_all add: run_Cons step_keeps del: run.simps(2))
  show "onTwilioClose (fst s) \<Longrightarrow> onTwilioClose (fst (fst (run cfg is s)))"
    by (induction "is" arbitrary: s) (simp_all add: run_Cons step_keeps del: run.simps(2))
qed

lemma step_finalize:
  "filter is_finalize (snd (step cfg i s)) =
     (if fst i = TwilioClosed \<and> onTwilioClose (fst s) then [Finalize (callSid (fst s))] else [])"
proof -
  obtain ev now th where i: "i = (ev, now, th)" by (cases i)
  obtain r w where s: "s = (r, w)" by (cases s)
  have f: "filter is_finalize (finalizeAndNotify cfg c now w) = []" for c
  proof -
    have "\<not> is_finalize e" if "e \<in> set (finalizeAndNotify cfg c now w)" for e
      using finalize_fetch_only [OF that] by (cases e) simp_all
    then show ?thesis by (simp add: filter_empty_conv)
  qed
  have t: "filter is_finalize (snd (twilio_message th raw r)) = []" for raw
    using twilio_message_effects [of _ th raw r] by (auto simp: filter_empty_conv)
  have o: "filter is_finalize (snd (ai_open cfg th r)) = []"
    using ai_open_effects [of _ cfg th r] by (auto simp: filter_empty_conv)
  have e: "filter is_finalize (snd (ai_error th r)) = []"
    using ai_error_effects [of _ th r] by (auto simp: filter_empty_conv)
  have m: "filter is_finalize (snd (ai_message th now raw r w)) = []" for raw
    using ai_message_effects [of _ th now raw r w] by (auto simp: filter_empty_conv)
  show ?thesis
    unfolding i s step_effects
    by (cases ev) (simp_all add: f t o e m twilio_close_def ai_close_def fetch_settled_def cmd_defs)
qed

lemma no_close_handler:
  assumes "\<not> onTwilioClose (fst s)"
    and "\<not> awaiting (fst s) \<or> list_all (\<lambda>i. fst i \<noteq> AiOpen) is"
  shows "filter is_finalize (snd (run cfg is s)) = []
       \<and> filter is_fetch (snd (run cfg is s)) = []
       \<and> \<not> onTwilioClose (fst (fst (run cfg is s)))"
  using assms
proof (induction "is" arbitrary: s)
  case Nil
  then show ?case by simp
next
  case (Cons i "is")
  obtain ev now th where i: "i = (ev, now, th)" by (cases i)
  obtain r w where s: "s = (r, w)" by (cases s)
  let ?s1 = "fst (step cfg i s)"
  have a: "\<not> onTwilioClose (fst ?s1)"
    using Cons.prems unfolding i s
    by (cases ev) (auto simp: split_beta twilio_message_keeps ai_error_keeps ai_open_keeps)
  have b: "\<not> awaiting (fst ?s1) \<or> list_all (\<lambda>i. fst i \<noteq> AiOpen) is"
    using Cons.prems unfolding i s
    by (cases ev) (auto simp: split_beta twilio_message_keeps ai_error_keeps ai_open_keeps)
  have c: "filter is_fetch (snd (step cfg i s)) = []"
    using step_fetch [of _ cfg i s] Cons.prems(1) by (auto simp: filter_empty_conv)
  from Cons.IH [OF a b] c Cons.prems(1) show ?case
    by (simp add: run_Cons step_finalize del: run.simps(2))
qed

lemma still_awaiting:
  assumes "awaiting (fst s)" and "list_all (\<lambda>i. fst i \<noteq> AiOpen \<and> fst i \<noteq> AiError) is"
  shows "awaiting (fst (fst (run cfg is s)))"
  using assms
proof (induction "is" arbitrary: s)
  case Nil
  then show ?case by simp
next
  case (Cons i "is")
  obtain ev now th where i: "i = (ev, now, th)" by (cases i)
  obtain r w where s: "s = (r, w)" by (cases s)
  have "awaiting (fst (fst (step cfg i s)))"
    using Cons.prems unfolding i s
    by (cases ev) (auto simp: split_beta twilio_message_keeps)
  with Cons show ?case by (simp add: run_Cons del: run.simps(2))
qed

subsection \<open>The states of the concrete call\<close>

lemma connecting_state_eq:
  "connecting_state =
     (\<lparr> callSid = ''CA1'', session = 0, streamSid = Null, aiWS = False, aiReady = False,
         awaiting = True, onAi = False, onTwilioClose = False \<rparr>, first_world)"
  by (simp add: connecting_state_def first_world_def wss_connection_def empty_world_def Let_def)

lemma unrouted_state_eq:
  "unrouted_state =
     (\<lparr> callSid = ''CA1'', session = 0, streamSid = Null, aiWS = True, aiReady = True,
         awaiting = False, onAi = True, onTwilioClose = True \<rparr>, first_world)"
  by (simp add: unrouted_state_def connecting_state_eq cfg_hook_def ai_open_def cmd_defs
                no_fault_def Let_def)

lemma active_state_eq:
  "active_state =
     (\<lparr> callSid = ''CA1'', session = 0, streamSid = Str ''SX1'', aiWS = True, aiReady = True,
         awaiting = False, onAi = True, onTwilioClose = True \<rparr>, first_world)"
  by (simp add: active_state_def opening_trace_def connecting_state_eq cfg_hook_def start_msg_def
                ai_open_def twilio_message_def js_or_def cmd_defs no_fault_def Let_def)

subsection \<open>Outbound audio waits for the stream identifier\<close>

lemma ai_message_routed:
  "e \<in> set (snd (ai_message th now raw r w)) \<Longrightarrow> has_route e"
  by (auto simp: ai_message_def forward_audio_def media_event_def cmd_defs Let_def
           split: option.splits if_splits)

lemma not_send_routed: "\<not> is_twilio_send e \<Longrightarrow> has_route e"
  by (cases e rule: is_twilio_send.cases) simp_all

lemma fetch_routed: "is_fetch e \<Longrightarrow> has_route e"
  by (cases e) simp_all

lemma step_routed:
  assumes "e \<in> set (snd (step cfg i s))"
  shows "has_route e"
proof -
  obtain ev now th where i: "i = (ev, now, th)" by (cases i)
  obtain r w where s: "s = (r, w)" by (cases s)
  have f: "has_route e'" if "e' \<in> set (finalizeAndNotify cfg c now w)" for e' c
    using finalize_fetch_only [OF that] by (simp add: fetch_routed)
  from assms f show ?thesis
    unfolding i s step_effects
    by (cases ev)
       (auto simp: ai_close_def twilio_close_def fetch_settled_def cmd_defs
             dest: finalize_fetch_only twilio_message_effects ai_open_effects
                   ai_error_effects ai_message_routed
             intro: not_send_routed
             split: if_splits)
qed

lemma ai_message_unrouted:
  assumes "streamSid r = Null"
  shows "snd (ai_message th now raw r w) =
           (case raw of
              None \<Rightarrow> []
            | Some msg \<Rightarrow>
                if isAudioDelta msg
                then [Console Warning ''[Twilio] missing streamSid; audio skipped'']
                else [])"
  using assms
  by (auto simp: ai_message_def forward_audio_def isAudioDelta_def audioPayload_def js_or_def
                 cmd_defs Let_def
           split: option.splits)

lemma step_unrouted:
  assumes "streamSid (fst s) = Null"
  shows "filter is_twilio_send (snd (step cfg i s)) = []"
proof -
  obtain ev now th where i: "i = (ev, now, th)" by (cases i)
  obtain r w where s: "s = (r, w)" by (cases s)
  have t: "filter is_twilio_send (snd (twilio_message th raw r)) = []" for raw
    using twilio_message_effects [of _ th raw r] by (auto simp: filter_empty_conv)
  have o: "filter is_twilio_send (snd (ai_open cfg th r)) = []"
    using ai_open_effects [of _ cfg th r] by (auto simp: filter_empty_conv)
  have e: "filter is_twilio_send (snd (ai_error th r)) = []"
    using ai_error_effects [of _ th r] by (auto simp: filter_empty_conv)
  have f: "filter is_twilio_send (finalizeAndNotify cfg c now w) = []" for c
  proof -
    have "\<not> is_twilio_send e" if "e \<in> set (finalizeAndNotify cfg c now w)" for e
      using finalize_fetch_only [OF that] by (cases e rule: is_twilio_send.cases) simp_all
    then show ?thesis by (simp add: filter_empty_conv)
  qed
  from assms s have n: "streamSid r = Null" by simp
  have m: "filter is_twilio_send (snd (ai_message th now raw r w)) = []" for raw
    by (simp add: ai_message_unrouted [OF n] split: option.splits)
  show ?thesis
    unfolding i s step_effects
    by (cases ev) (simp_all add: f t o e m twilio_close_def ai_close_def fetch_settled_def cmd_defs)
qed

lemma step_keeps_unrouted:
  assumes "streamSid (fst s) = Null" and "\<not> supplies_route i"
  shows "streamSid (fst (fst (step cfg i s))) = Null"
proof -
  obtain ev now th where i: "i = (ev, now, th)" by (cases i)
  obtain r w where s: "s = (r, w)" by (cases s)
  have t: "streamSid (fst (twilio_message th raw r)) = Null"
    if "\<not> supplies_route (TwilioMessage raw, now, th)" for raw
    using that assms(1) s
    by (cases raw) (auto simp: twilio_message_def js_or_def Let_def)
  from assms show ?thesis
    unfolding i s
    by (cases ev) (simp_all add: split_beta t ai_open_keeps ai_error_keeps)
qed

text \<open>
  C1. No message is sent to the caller socket while \<^verbatim>\<open>streamSid\<close> is unset. In every
  run, from every state, each message sent to the caller socket is a media event with a truthy,
  hence non-null, \<^verbatim>\<open>streamSid\<close>. From a relay whose \<^verbatim>\<open>streamSid\<close> is
  \<^verbatim>\<open>null\<close>, a run in which no start event supplies a stream identifier sends nothing to
  the caller socket. And an audio delta of the AI socket that arrives while \<^verbatim>\<open>streamSid\<close>
  is \<^verbatim>\<open>null\<close> changes nothing and leaves the warning alone.
\<close>

theorem streamSid_gating:
  "list_all has_route (snd (run cfg is s))
   \<and> (streamSid r = Null \<and> list_all (\<lambda>i. \<not> supplies_route i) is \<longrightarrow>
        filter is_twilio_send (snd (run cfg is (r, w))) = [])
   \<and> (streamSid r = Null \<and> onAi r \<and> isAudioDelta msg \<longrightarrow>
        step cfg (AiMessage (Some msg), now, th) (r, w) =
          ((r, w), [Console Warning ''[Twilio] missing streamSid; audio skipped'']))"
proof (intro conjI impI)
  show "list_all has_route (snd (run cfg is s))"
    unfolding list_all_iff
  proof
    fix e assume "e \<in> set (snd (run cfg is s))"
    then show "has_route e"
      by (rule run_effects_induct [rotated]) (rule step_routed)
  qed
next
  assume a: "streamSid r = Null \<and> list_all (\<lambda>i. \<not> supplies_route i) is"
  have "streamSid (fst s) = Null \<Longrightarrow> list_all (\<lambda>i. \<not> supplies_route i) is \<Longrightarrow>
        filter is_twilio_send (snd (run cfg is s)) = []" for s
  proof (induction "is" arbitrary: s)
    case Nil
    then show ?case by simp
  next
    case (Cons i "is")
    from Cons.prems have n: "streamSid (fst (fst (step cfg i s))) = Null"
      by (simp add: step_keeps_unrouted)
    from Cons.IH [OF n] Cons.prems show ?case
      by (simp add: run_Cons step_unrouted del: run.simps(2))
  qed
  from this [of "(r, w)"] a show "filter is_twilio_send (snd (run cfg is (r, w))) = []"
    by simp
next
  assume a: "streamSid r = Null \<and> onAi r \<and> isAudioDelta msg"
  then have nn: "msg \<noteq> Null" "msg \<noteq> Undefined"
    by (auto simp: isAudioDelta_def)
  have k: "push_transcript msg now s' = s'" "merge_fields msg s' = s'" for s'
    using a by (auto simp: isAudioDelta_def push_transcript_def merge_fields_def)
  have "ai_message th now (Some msg) r w = (w, [Console Warning ''[Twilio] missing streamSid; audio skipped''])"
    using a nn
    by (auto simp: ai_message_def forward_audio_def audioPayload_def isAudioDelta_def js_or_def
                   cmd_defs k update_session_def Let_def)
  with a show "step cfg (AiMessage (Some msg), now, th) (r, w) =
          ((r, w), [Console Warning ''[Twilio] missing streamSid; audio skipped''])"
    by simp
qed

theorem streamSid_gating_witness:
  "list_all has_route (snd (run cfg_hook (opening_trace @ [(AiMessage (Some audio_msg), 12, no_fault)]) connecting_state))
   \<and> filter is_twilio_send (snd (run cfg_hook (opening_trace @ [(AiMessage (Some audio_msg), 12, no_fault)]) connecting_state))
       = [Call (TwilioSend (media_event (Str ''SX1'') (Str ''fn5+'')))]
   \<and> streamSid (fst connecting_state) = Null
   \<and> list_all (\<lambda>i. \<not> supplies_route i) early_audio_trace
   \<and> filter is_twilio_send (snd (run cfg_hook early_audio_trace connecting_state)) = []
   \<and> onAi (fst unrouted_state) \<and> isAudioDelta audio_msg
   \<and> step cfg_hook (AiMessage (Some audio_msg), 11, no_fault) unrouted_state
       = (unrouted_state, [Console Warning ''[Twilio] missing streamSid; audio skipped''])"
proof -
  have a: "streamSid (fst connecting_state) = Null" "streamSid (fst unrouted_state) = Null"
          "onAi (fst unrouted_state)"
    by (simp_all add: connecting_state_eq unrouted_state_eq)
  have b: "list_all (\<lambda>i. \<not> supplies_route i) early_audio_trace"
    by (simp add: early_audio_trace_def)
  have c: "isAudioDelta audio_msg"
    by (simp add: isAudioDelta_def audio_msg_def)
  have d: "filter is_twilio_send (snd (run cfg_hook (opening_trace @ [(AiMessage (Some audio_msg), 12, no_fault)]) connecting_state))
       = [Call (TwilioSend (media_event (Str ''SX1'') (Str ''fn5+'')))]"
    by (simp add: opening_trace_def connecting_state_eq first_world_def cfg_hook_def start_msg_def
                  audio_msg_def eval_defs)
  from streamSid_gating [of cfg_hook "opening_trace @ [(AiMessage (Some audio_msg), 12, no_fault)]"
          connecting_state]
       streamSid_gating [of cfg_hook early_audio_trace connecting_state "fst connecting_state"
          "snd connecting_state"]
       streamSid_gating [of cfg_hook "[]" connecting_state "fst unrouted_state"
          "snd unrouted_state" audio_msg 11 no_fault]
       a b c d
  show ?thesis by simp
qed

subsection \<open>One summary per close of the caller socket\<close>



subsection \<open>A failed connection to the AI service\<close>

text \<open>
  C3. When the socket to the AI service fails while the relay awaits it (the promise of
  \<^verbatim>\<open>connectOpenAI\<close> is rejected), after any events of the caller socket received in
  the meantime, the relay prints the error and closes the caller socket; and the whole run,
  whatever follows, contains neither a call of \<^verbatim>\<open>finalizeAndNotify\<close> nor a summary
  request.
\<close>

theorem connect_failure_no_summary:
  assumes "awaiting r" and "\<not> onTwilioClose r"
    and "list_all (\<lambda>i. fst i \<noteq> AiOpen \<and> fst i \<noteq> AiError) pre"
  shows "snd (step cfg (AiError, now, th) (fst (run cfg pre (r, w))))
           = [Console Error ''[OpenAI] WS error at connect:'', Call TwilioClose]
       \<and> filter is_finalize (snd (run cfg (pre @ (AiError, now, th) # post) (r, w))) = []
       \<and> filter is_fetch (snd (run cfg (pre @ (AiError, now, th) # post) (r, w))) = []"
proof -
  let ?s1 = "fst (run cfg pre (r, w))"
  let ?s2 = "fst (step cfg (AiError, now, th) ?s1)"
  from assms(3) have pre': "list_all (\<lambda>i. fst i \<noteq> AiOpen) pre"
    by (simp add: list_all_iff)
  from no_close_handler [of "(r, w)" pre cfg] assms(2) pre'
  have p1: "filter is_finalize (snd (run cfg pre (r, w))) = []"
    "filter is_fetch (snd (run cfg pre (r, w))) = []" "\<not> onTwilioClose (fst ?s1)"
    by simp_all
  from still_awaiting [of "(r, w)" pre cfg] assms(1,3) have aw: "awaiting (fst ?s1)" by simp
  obtain r1 w1 where s1: "?s1 = (r1, w1)" by (cases ?s1)
  from aw s1 have e: "snd (step cfg (AiError, now, th) ?s1)
           = [Console Error ''[OpenAI] WS error at connect:'', Call TwilioClose]"
    by (simp add: ai_error_def cmd_defs)
  from p1(3) s1 have q: "\<not> onTwilioClose (fst ?s2)" "\<not> awaiting (fst ?s2)"
    by (simp_all add: split_beta ai_error_keeps)
  from no_close_handler [of ?s2 post cfg] q
  have p2: "filter is_finalize (snd (run cfg post ?s2)) = []"
    "filter is_fetch (snd (run cfg post ?s2)) = []"
    by simp_all
  from e p1 p2 show ?thesis
    by (simp add: run_append run_Cons del: run.simps(2))
qed

theorem connect_failure_no_summary_witness:
  "awaiting (fst connecting_state) \<and> \<not> onTwilioClose (fst connecting_state)
   \<and> snd (step cfg_hook (AiError, 12, no_fault)
            (fst (run cfg_hook [(TwilioMessage (Some start_msg), 10, no_fault),
                                (TwilioMessage (Some media_msg), 11, no_fault)] connecting_state)))
       = [Console Error ''[OpenAI] WS error at connect:'', Call TwilioClose]
   \<and> filter is_finalize
        (snd (run cfg_hook ([(TwilioMessage (Some start_msg), 10, no_fault),
                             (TwilioMessage (Some media_msg), 11, no_fault)]
                            @ (AiError, 12, no_fault) # failed_connect_trace) connecting_state)) = []
   \<and> filter is_fetch
        (snd (run cfg_hook ([(TwilioMessage (Some start_msg), 10, no_fault),
                             (TwilioMessage (Some media_msg), 11, no_fault)]
                            @ (AiError, 12, no_fault) # failed_connect_trace) connecting_state)) = []"
proof -
  have a: "awaiting (fst connecting_state)" "\<not> onTwilioClose (fst connecting_state)"
    by (simp_all add: connecting_state_eq)
  have b: "list_all (\<lambda>i. fst i \<noteq> AiOpen \<and> fst i \<noteq> AiError)
             [(TwilioMessage (Some start_msg), 10, no_fault),
              (TwilioMessage (Some media_msg), 11, no_fault)]"
    by simp
  from connect_failure_no_summary [OF a b, of cfg_hook 12 no_fault "snd connecting_state"
         failed_connect_trace] a
  show ?thesis by simp
qed

subsection \<open>The two shapes of an audio delta\<close>

text \<open>
  C4, as the code has it. The AI event is taken for audio under exactly two shapes: type
  \<^verbatim>\<open>response.audio.delta\<close> with a truthy \<^verbatim>\<open>audio\<close> field, and type
  \<^verbatim>\<open>response.output_audio.delta\<close> with a truthy \<^verbatim>\<open>delta\<close> field. Both lead to
  the same thing: with the stream identifier set, one media event to the caller, and the
  warning without it. The payload is \<^verbatim>\<open>msg.audio || msg.delta\<close>: the
  \<^verbatim>\<open>audio\<close> field whenever the event has a truthy one, also in an event of the second
  shape, and the \<^verbatim>\<open>delta\<close> field otherwise. Every other event leaves no effect at
  all, so no audio: another type, but also the first type with only a \<^verbatim>\<open>delta\<close> field
  and the second type with only an \<^verbatim>\<open>audio\<close> field.
\<close>

theorem audio_delta_shapes:
  "(get_prop msg ''type'' = Str ''response.audio.delta'' \<and> truthy (get_prop msg ''audio'') \<longrightarrow>
      snd (ai_message th now (Some msg) r w) =
        (if truthy (streamSid r)
         then [Call (TwilioSend (media_event (streamSid r) (get_prop msg ''audio'')))]
         else [Console Warning ''[Twilio] missing streamSid; audio skipped'']))
   \<and> (get_prop msg ''type'' = Str ''response.output_audio.delta'' \<and> truthy (get_prop msg ''delta'') \<longrightarrow>
      snd (ai_message th now (Some msg) r w) =
        (if truthy (streamSid r)
         then [Call (TwilioSend (media_event (streamSid r)
                 (if truthy (get_prop msg ''audio'') then get_prop msg ''audio''
                  else get_prop msg ''delta'')))]
         else [Console Warning ''[Twilio] missing streamSid; audio skipped'']))
   \<and> (\<not> (get_prop msg ''type'' = Str ''response.audio.delta'' \<and> truthy (get_prop msg ''audio''))
        \<and> \<not> (get_prop msg ''type'' = Str ''response.output_audio.delta''
              \<and> truthy (get_prop msg ''delta'')) \<longrightarrow>
      snd (ai_message th now (Some msg) r w) = [])
   \<and> get_prop (get_prop (media_event sid p) ''media'') ''payload'' = p"
  by (auto simp: ai_message_def forward_audio_def isAudioDelta_def audioPayload_def js_or_def
        media_event_def cmd_defs Let_def)

text \<open>
  The claim as stated fails on an event of the second shape that also carries an
  \<^verbatim>\<open>audio\<close> field: the payload sent is the \<^verbatim>\<open>audio\<close> field, not the
  \<^verbatim>\<open>delta\<close> field.
\<close>

theorem audio_delta_shapes_counterexample:
  "get_prop both_fields_msg ''type'' = Str ''response.output_audio.delta''
   \<and> get_prop both_fields_msg ''delta'' = Str ''QkJC''
   \<and> snd (ai_message no_fault 12 (Some both_fields_msg) (fst active_state) (snd active_state))
       = [Call (TwilioSend (media_event (Str ''SX1'') (Str ''QUFB'')))]"
  by (simp add: both_fields_msg_def active_state_eq first_world_def eval_defs)

theorem audio_delta_shapes_witness:
  "snd (ai_message no_fault 12 (Some audio_msg) (fst active_state) (snd active_state))
     = [Call (TwilioSend (media_event (Str ''SX1'') (Str ''fn5+'')))]
   \<and> snd (ai_message no_fault 12 (Some output_audio_msg) (fst active_state) (snd active_state))
     = [Call (TwilioSend (media_event (Str ''SX1'') (Str ''fn5+'')))]
   \<and> snd (ai_message no_fault 12 (Some both_fields_msg) (fst active_state) (snd active_state))
     = [Call (TwilioSend (media_event (Str ''SX1'') (Str ''QUFB'')))]
   \<and> snd (ai_message no_fault 12 (Some crossed_msg) (fst active_state) (snd active_state)) = []
   \<and> snd (ai_message no_fault 12 (Some transcript_msg) (fst active_state) (snd active_state)) = []"
proof -
  have a: "get_prop audio_msg ''type'' = Str ''response.audio.delta''"
          "get_prop audio_msg ''audio'' = Str ''fn5+''"
          "get_prop output_audio_msg ''type'' = Str ''response.output_audio.delta''"
          "get_prop output_audio_msg ''delta'' = Str ''fn5+''"
          "get_prop output_audio_msg ''audio'' = Undefined"
          "get_prop both_fields_msg ''type'' = Str ''response.output_audio.delta''"
          "get_prop both_fields_msg ''delta'' = Str ''QkJC''"
          "get_prop both_fields_msg ''audio'' = Str ''QUFB''"
          "get_prop crossed_msg ''type'' = Str ''response.audio.delta''"
          "get_prop crossed_msg ''audio'' = Undefined"
          "get_prop transcript_msg ''type'' = Str ''transcript.delta''"
    by (simp_all add: audio_msg_def output_audio_msg_def both_fields_msg_def crossed_msg_def
                      transcript_msg_def)
  have b: "streamSid (fst active_state) = Str ''SX1''" by (simp add: active_state_eq)
  from audio_delta_shapes [of audio_msg no_fault 12 "fst active_state" "snd active_state"]
       audio_delta_shapes [of output_audio_msg no_fault 12 "fst active_state" "snd active_state"]
       audio_delta_shapes [of both_fields_msg no_fault 12 "fst active_state" "snd active_state"]
       audio_delta_shapes [of crossed_msg no_fault 12 "fst active_state" "snd active_state"]
       audio_delta_shapes [of transcript_msg no_fault 12 "fst active_state" "snd active_state"]
       a b
  show ?thesis by simp
qed

subsection \<open>Teardown on the caller's stop event\<close>

text \<open>
  C5, as the code has it. On the caller's stop event, if the variable \<^verbatim>\<open>aiWS\<close> holds
  the AI socket, the handler attempts, in this order and whichever of the calls throw, the
  send of \<^verbatim>\<open>input_audio_buffer.commit\<close>, the send of the closing
  \<^verbatim>\<open>response.create\<close>, the close of the AI socket and the close of the caller socket.
  If \<^verbatim>\<open>aiWS\<close> is still \<^verbatim>\<open>null\<close> (the stop event arrives before the connection to
  the AI service is made, or after it failed), the handler closes the caller socket only. The
  relay's variables are unchanged either way.
\<close>

theorem stop_teardown:
  assumes "get_prop msg ''event'' = Str ''stop''"
  shows "twilio_message th (Some msg) r =
           (r, if aiWS r
               then [Console Info ''[Twilio] STOP'',
                     Call (AiSend audio_commit),
                     Call (AiSend closing_response),
                     Call AiClose,
                     Call TwilioClose]
               else [Console Info ''[Twilio] STOP'', Call TwilioClose])"
proof -
  from assms have nn: "msg \<noteq> Null" "msg \<noteq> Undefined" by auto
  show ?thesis
    using assms nn
    by (simp add: twilio_message_def teardown_def cmd_defs)
qed

text \<open>
  The claim as stated, for every call, fails on a stop event that arrives while the relay still
  awaits the AI socket: nothing is sent and the caller socket alone is closed.
\<close>

theorem stop_teardown_counterexample:
  "aiWS (fst connecting_state) = False
   \<and> snd (twilio_message no_fault (Some stop_msg) (fst connecting_state))
       = [Console Info ''[Twilio] STOP'', Call TwilioClose]"
  by (simp add: stop_msg_def connecting_state_eq eval_defs)

theorem stop_teardown_witness:
  "twilio_message all_fault (Some stop_msg) (fst active_state) =
     (fst active_state,
      [Console Info ''[Twilio] STOP'', Call (AiSend audio_commit),
       Call (AiSend closing_response), Call AiClose, Call TwilioClose])"
proof -
  have a: "get_prop stop_msg ''event'' = Str ''stop''" by (simp add: stop_msg_def)
  have b: "aiWS (fst active_state)" by (simp add: active_state_eq)
  from stop_teardown [OF a, of all_fault "fst active_state"] b show ?thesis by simp
qed

subsection \<open>Caller audio before and after the AI socket is ready\<close>

text \<open>
  C6. A media event of the caller with a payload, received while \<^verbatim>\<open>aiReady\<close> is false,
  leaves no effect and changes neither the relay nor the session store, and the rest of the run
  is what it would have been had the frame never arrived: nothing is queued or tried again.
  Received while the AI socket is ready, it is one send of an
  \<^verbatim>\<open>input_audio_buffer.append\<close> event whose \<^verbatim>\<open>audio\<close> is the frame's payload
  (followed by an error line if that send throws), and again no state changes.
\<close>

theorem media_frame_forwarding:
  assumes "get_prop msg ''event'' = Str ''media''"
    and "truthy (get_prop (get_prop msg ''media'') ''payload'')"
  shows "(\<not> aiReady r \<longrightarrow>
            step cfg (TwilioMessage (Some msg), now, th) (r, w) = ((r, w), [])
            \<and> run cfg ((TwilioMessage (Some msg), now, th) # is) (r, w) = run cfg is (r, w))
       \<and> (aiReady r \<and> aiWS r \<longrightarrow>
            step cfg (TwilioMessage (Some msg), now, th) (r, w) =
              ((r, w),
               Call (AiSend (audio_append (get_prop (get_prop msg ''media'') ''payload'')))
               # (if th (AiSend (audio_append (get_prop (get_prop msg ''media'') ''payload'')))
                  then [Console Error ''WS parse error:''] else [])))
       \<and> get_prop (audio_append (get_prop (get_prop msg ''media'') ''payload'')) ''type''
            = Str ''input_audio_buffer.append''
       \<and> get_prop (audio_append (get_prop (get_prop msg ''media'') ''payload'')) ''audio''
            = get_prop (get_prop msg ''media'') ''payload''"
proof -
  from assms(1) have nn: "msg \<noteq> Null" "msg \<noteq> Undefined" by auto
  show ?thesis
    using assms nn
    by (auto simp: twilio_message_def audio_append_def perform_def Let_def)
qed

theorem media_frame_forwarding_witness:
  "step cfg_hook (TwilioMessage (Some media_msg), 10, no_fault) connecting_state
     = (connecting_state, [])
   \<and> step cfg_hook (TwilioMessage (Some media_msg), 12, no_fault) active_state
     = (active_state, [Call (AiSend (audio_append (Str ''fn5+'')))])"
proof -
  have a: "get_prop media_msg ''event'' = Str ''media''"
    and b: "truthy (get_prop (get_prop media_msg ''media'') ''payload'')"
    and c: "get_prop (get_prop media_msg ''media'') ''payload'' = Str ''fn5+''"
    by (simp_all add: media_msg_def)
  have d: "\<not> aiReady (fst connecting_state)" "aiReady (fst active_state)" "aiWS (fst active_state)"
    by (simp_all add: connecting_state_eq active_state_eq)
  from media_frame_forwarding [OF a b, of "fst connecting_state" cfg_hook 10 no_fault
         "snd connecting_state" "[]"]
       media_frame_forwarding [OF a b, of "fst active_state" cfg_hook 12 no_fault
         "snd active_state" "[]"]
       c d
  show ?thesis by (simp add: no_fault_def)
qed

subsection \<open>The session after the summary\<close>

text \<open>
  C7, as the code has it. The close handler of the caller socket, and with it
  \<^verbatim>\<open>finalizeAndNotify\<close>, leaves the session store and the session as they are: no entry
  is removed. A later connection for the same call identifier finds the entry and takes the
  very same session object, with the transcript and the fields it has accumulated; the store
  is unchanged by that lookup too.
\<close>

theorem session_kept_after_finalize:
  "fst (step cfg (TwilioClosed, now, th) (r, w)) = (r, w)
   \<and> (sessions w c = Some a \<and> c \<noteq> [] \<longrightarrow>
        wss_connection (Some c) now' w =
          (\<lparr> callSid = c, session = a, streamSid = Null, aiWS = False, aiReady = False,
              awaiting = True, onAi = False, onTwilioClose = False \<rparr>, w))"
  by (auto simp: wss_connection_def Let_def fun_upd_idem)

text \<open>
  The claim as stated fails on the short call: after the summary has been requested, a new
  lookup of the call identifier yields the session with its one transcript entry, not an empty
  one.
\<close>

theorem session_released_counterexample:
  "filter is_finalize (snd (run cfg_hook closing_trace active_state)) = [Finalize ''CA1'']
   \<and> length (filter is_fetch (snd (run cfg_hook closing_trace active_state))) = 1
   \<and> transcript (heap (snd (wss_connection (Some ''CA1'') 20 (snd finished_state)))
                       (session (fst (wss_connection (Some ''CA1'') 20 (snd finished_state)))))
       = [\<lparr> e_from = Str ''agent'', e_text = Str ''Buongiorno'', e_t = 12 \<rparr>]"
  by (simp add: finished_state_def closing_trace_def active_state_eq first_world_def cfg_hook_def
                transcript_msg_def stop_msg_def eval_defs)

theorem session_kept_after_finalize_witness:
  "sessions (snd finished_state) ''CA1'' = Some 0
   \<and> fst (step cfg_hook (TwilioClosed, 15, no_fault) active_state) = active_state
   \<and> wss_connection (Some ''CA1'') 20 (snd finished_state) =
       (\<lparr> callSid = ''CA1'', session = 0, streamSid = Null, aiWS = False, aiReady = False,
           awaiting = True, onAi = False, onTwilioClose = False \<rparr>, snd finished_state)"
proof -
  have a: "sessions (snd finished_state) ''CA1'' = Some 0"
    by (simp add: finished_state_def closing_trace_def active_state_eq first_world_def cfg_hook_def
                  transcript_msg_def stop_msg_def eval_defs)
  have b: "''CA1'' \<noteq> []" by simp
  from session_kept_after_finalize [of cfg_hook 15 no_fault "fst active_state" "snd active_state"
         "''CA1''" 0 20]
       session_kept_after_finalize [of cfg_hook 15 no_fault "fst active_state" "snd finished_state"
         "''CA1''" 0 20]
       a b
  show ?thesis by simp
qed

subsection \<open>Merging extracted fields\<close>

lemma set_prop_lookup:
  "fst (set_prop target k' v) k =
     (if k = k' \<and> \<not> (k' = ''__proto__'' \<and> fst target k' = None \<and> inherits_accessor (snd target))
      then Some v else fst target k)"
  by (auto simp: set_prop_def)

lemma assign_props_lookup:
  assumes "k \<noteq> ''__proto__'' \<or> map_of (rev kvs) k = None"
  shows "fst (assign_props target kvs) k =
           (case map_of (rev kvs) k of Some v \<Rightarrow> Some v | None \<Rightarrow> fst target k)"
  using assms
proof (induction kvs arbitrary: target)
  case Nil
  then show ?case by simp
next
  case (Cons kv kvs)
  obtain k' v' where kv: "kv = (k', v')" by (cases kv)
  from Cons.prems have p: "k \<noteq> ''__proto__'' \<or> map_of (rev kvs) k = None"
    unfolding kv by (auto simp: map_add_def split: option.splits)
  from Cons.prems have q: "k \<noteq> ''__proto__'' \<or> k \<noteq> k'"
    unfolding kv by (auto simp: map_add_def split: option.splits)
  from q show ?case
    unfolding kv
    by (auto simp: Cons.IH [OF p] set_prop_lookup map_add_def split: option.splits)
qed

lemma ai_message_session:
  "heap (fst (ai_message th now raw r w)) a =
     (if a = session r
      then (case raw of
              None \<Rightarrow> heap w a
            | Some msg \<Rightarrow>
                if msg = Null \<or> msg = Undefined \<or> snd (forward_audio th msg r) then heap w a
                else merge_fields msg (push_transcript msg now (heap w a)))
      else heap w a)"
  by (simp add: ai_message_def update_session_def Let_def split: option.splits)

lemma forward_audio_throws:
  "snd (forward_audio th msg r) \<Longrightarrow> isAudioDelta msg"
  by (auto simp: forward_audio_def cmd_defs split: if_splits)

lemma audio_is_not_data:
  assumes "isAudioDelta msg"
  shows "push_transcript msg now s = s" and "merge_fields msg s = s"
  using assms by (auto simp: isAudioDelta_def push_transcript_def merge_fields_def)

lemma merge_fields_lookup:
  assumes "k \<noteq> ''__proto__'' \<or> field_write k (AiMessage (Some msg), now, th) = None"
  shows "s_fields (merge_fields msg s) k =
           (case field_write k (AiMessage (Some msg), now, th) of
              Some v \<Rightarrow> Some v
            | None \<Rightarrow> s_fields s k)"
proof (cases "get_prop msg ''type'' = Str ''extracted.fields'' \<and> truthy (get_prop msg ''fields'')")
  case True
  with assms have "k \<noteq> ''__proto__'' \<or> map_of (rev (own_props (get_prop msg ''fields''))) k = None"
    by simp
  from assign_props_lookup [OF this, of "(s_fields s, s_proto s)"] True
  show ?thesis
    by (simp add: merge_fields_def object_assign_def split_beta split: option.splits)
next
  case False
  then show ?thesis by (auto simp: merge_fields_def)
qed

lemma ai_message_fields:
  assumes "k \<noteq> ''__proto__'' \<or> field_write k (AiMessage raw, now, th) = None"
  shows "s_fields (heap (fst (ai_message th now raw r w)) a) k =
     (if a = session r
      then (case field_write k (AiMessage raw, now, th) of
              Some v \<Rightarrow> Some v
            | None \<Rightarrow> s_fields (heap w a) k)
      else s_fields (heap w a) k)"
proof (cases raw)
  case None
  then show ?thesis by (simp add: ai_message_session)
next
  case (Some msg)
  show ?thesis
  proof (cases "msg = Null \<or> msg = Undefined \<or> snd (forward_audio th msg r)")
    case True
    then have "get_prop msg ''type'' \<noteq> Str ''extracted.fields''"
      by (auto simp: isAudioDelta_def dest: forward_audio_throws)
    with True Some show ?thesis by (auto simp: ai_message_session)
  next
    case False
    have pt: "s_fields (push_transcript msg now s) = s_fields s" for s
      by (simp add: push_transcript_def)
    from assms Some
    have "k \<noteq> ''__proto__'' \<or> field_write k (AiMessage (Some msg), now, th) = None"
      by simp
    from merge_fields_lookup [OF this, of "push_transcript msg now (heap w a)"]
    have "s_fields (merge_fields msg (push_transcript msg now (heap w a))) k =
            (case field_write k (AiMessage (Some msg), now, th) of
               Some v \<Rightarrow> Some v
             | None \<Rightarrow> s_fields (heap w a) k)"
      by (simp only: pt)
    with False Some show ?thesis
      by (cases "a = session r") (simp_all add: ai_message_session)
  qed
qed

lemma step_fields:
  assumes "k \<noteq> ''__proto__'' \<or> field_write k i = None"
  shows "s_fields (heap (snd (fst (step cfg i (r, w)))) a) k =
     (if a = session r \<and> onAi r
      then (case field_write k i of Some v \<Rightarrow> Some v | None \<Rightarrow> s_fields (heap w a) k)
      else s_fields (heap w a) k)"
proof -
  obtain ev now th where i: "i = (ev, now, th)" by (cases i)
  from assms show ?thesis
    unfolding i
    by (cases ev) (auto simp: split_beta ai_message_fields)
qed

lemma run_fields_untouched:
  assumes "list_all (\<lambda>j. field_write k j = None) is"
  shows "s_fields (heap (snd (fst (run cfg is s))) (session (fst s))) k
           = s_fields (heap (snd s) (session (fst s))) k"
  using assms
proof (induction "is" arbitrary: s)
  case Nil
  then show ?case by simp
next
  case (Cons i "is")
  obtain r w where s: "s = (r, w)" by (cases s)
  let ?s1 = "fst (step cfg i s)"
  have se: "session (fst ?s1) = session (fst s)" by (rule step_keeps)
  from Cons.prems have "list_all (\<lambda>j. field_write k j = None) is" by simp
  from Cons.IH [OF this, of ?s1] se Cons.prems
  show ?case
    unfolding s
    by (simp add: run_Cons step_fields del: run.simps(2))
qed

text \<open>
  What holds of the merge for every key but \<^verbatim>\<open>__proto__\<close>: on an active relay, after
  any run, the key holds the value of the last \<^verbatim>\<open>extracted.fields\<close> event that
  contained it; and a key, \<^verbatim>\<open>__proto__\<close> included, that no event of the run contained
  holds what it held before.
\<close>

lemma last_write_wins_other_keys:
  assumes "onAi r" and "k \<noteq> ''__proto__''"
    and "field_write k i = Some v" and "list_all (\<lambda>j. field_write k j = None) post"
  shows "s_fields (heap (snd (fst (run cfg (pre @ i # post) (r, w)))) (session r)) k = Some v"
proof -
  let ?s1 = "fst (run cfg pre (r, w))"
  let ?s2 = "fst (step cfg i ?s1)"
  obtain r1 w1 where s1: "?s1 = (r1, w1)" by (cases ?s1)
  have r1: "session r1 = session r" "onAi r1"
    using run_keeps(2) [of cfg pre "(r, w)"] run_keeps(3) [of "(r, w)" cfg pre] assms(1) s1
    by simp_all
  have se: "session (fst ?s2) = session r"
    using step_keeps(2) [of cfg i ?s1] s1 r1 by simp
  have "s_fields (heap (snd ?s2) (session r)) k = Some v"
    using assms(2,3) r1 unfolding s1 by (simp add: step_fields)
  moreover have "s_fields (heap (snd (fst (run cfg post ?s2))) (session (fst ?s2))) k
                   = s_fields (heap (snd ?s2) (session (fst ?s2))) k"
    using assms(4) by (intro run_fields_untouched) simp
  ultimately show ?thesis
    by (simp add: run_append run_Cons se del: run.simps(2))
qed

text \<open>
  The example of the specification: the event with \<^verbatim>\<open>{a:1}\<close> followed by the event
  with \<^verbatim>\<open>{a:2, b:3}\<close> leaves \<^verbatim>\<open>a\<close> at 2, \<^verbatim>\<open>b\<close> at 3 and the other keys as
  they were, so a session without fields ends with exactly \<^verbatim>\<open>{a:2, b:3}\<close>.
\<close>

lemma two_merges:
  assumes "onAi r"
  shows "s_fields (heap (snd (fst (run cfg [(AiMessage (Some fields_a1), n1, th1),
                                            (AiMessage (Some fields_a2b3), n2, th2)] (r, w))))
                        (session r))
           = (s_fields (heap w (session r)))(''a'' \<mapsto> Num 2, ''b'' \<mapsto> Num 3)"
proof
  fix k
  let ?i1 = "(AiMessage (Some fields_a1), n1, th1)"
  let ?i2 = "(AiMessage (Some fields_a2b3), n2, th2)"
  let ?s1 = "fst (step cfg ?i1 (r, w))"
  have r1: "fst ?s1 = r" by (simp add: split_beta)
  then obtain w1 where s1: "?s1 = (r, w1)" by (cases ?s1) simp
  have p: "k \<noteq> ''__proto__'' \<or> field_write k ?i1 = None"
          "k \<noteq> ''__proto__'' \<or> field_write k ?i2 = None"
    by (auto simp: fields_a1_def fields_a2b3_def)
  have f1: "s_fields (heap w1 (session r)) k
              = (if k = ''a'' then Some (Num 1) else s_fields (heap w (session r)) k)"
    using step_fields [OF p(1), of cfg r w "session r"] assms s1
    by (simp add: fields_a1_def)
  have f2: "s_fields (heap (snd (fst (step cfg ?i2 (r, w1)))) (session r)) k
              = (if k = ''a'' then Some (Num 2) else if k = ''b'' then Some (Num 3)
                 else s_fields (heap w1 (session r)) k)"
    using step_fields [OF p(2), of cfg r w1 "session r"] assms
    by (simp add: fields_a2b3_def)
  have "run cfg [?i1, ?i2] (r, w) = (fst (step cfg ?i2 (r, w1)),
          snd (step cfg ?i1 (r, w)) @ snd (step cfg ?i2 (r, w1)))"
    using s1 by (simp add: run_Cons del: run.simps(2) step.simps)
  with f1 f2
  show "s_fields (heap (snd (fst (run cfg [?i1, ?i2] (r, w)))) (session r)) k
           = ((s_fields (heap w (session r)))(''a'' \<mapsto> Num 2, ''b'' \<mapsto> Num 3)) k"
    by simp
qed

lemma two_merges_fresh:
  "s_fields (heap (snd (fst (run cfg_hook [(AiMessage (Some fields_a1), 13, no_fault),
                                           (AiMessage (Some fields_a2b3), 14, no_fault)]
                                  active_state)))
                  (session (fst active_state)))
     = [''a'' \<mapsto> Num 2, ''b'' \<mapsto> Num 3]"
proof -
  have a: "onAi (fst active_state)" "session (fst active_state) = 0"
          "s_fields (heap (snd active_state) 0) = Map.empty"
    by (simp_all add: active_state_eq first_world_def fresh_session_def)
  from two_merges [OF a(1), of cfg_hook 13 no_fault 14 no_fault "snd active_state"] a
  show ?thesis by simp
qed

text \<open>
  C8. The claim holds of every key but one, and the code misses that one. An
  \<^verbatim>\<open>extracted.fields\<close> event whose field map contains the key \<^verbatim>\<open>__proto__\<close>
  should leave that key holding the event's value. \<^verbatim>\<open>Object.assign\<close> runs the setter
  inherited from \<^verbatim>\<open>Object.prototype\<close> instead: the session's fields get no such key
  (their prototype is replaced), and the summary built from them does not contain it. The
  other keys of the same event are stored.
\<close>

theorem proto_key_not_stored:
  "field_write ''__proto__'' (AiMessage (Some proto_fields_msg), 12, no_fault)
     = Some (Obj [(''x'', Num 1)])
   \<and> s_fields (heap (snd (fst (step cfg_hook (AiMessage (Some proto_fields_msg), 12, no_fault)
                                  active_state)))
                    (session (fst active_state))) ''__proto__'' = None
   \<and> s_proto (heap (snd (fst (step cfg_hook (AiMessage (Some proto_fields_msg), 12, no_fault)
                                 active_state)))
                   (session (fst active_state))) = ValuePrototype (Obj [(''x'', Num 1)])
   \<and> filter is_fetch (snd (run cfg_hook [(AiMessage (Some proto_fields_msg), 12, no_fault),
                                         (TwilioClosed, 15, no_fault)] active_state))
       = [Fetch ''https://n8n.example/summary''
            \<lparr> p_callSid = ''CA1'', startedAt = 9, endedAt = 15, p_transcript = [],
              p_fields = Map.empty \<rparr>]"
  by (simp add: proto_fields_msg_def active_state_eq first_world_def cfg_hook_def eval_defs)

subsection \<open>The transcript only grows\<close>

lemma ai_message_transcript:
  "transcript (heap (fst (ai_message th now raw r w)) a) =
     transcript (heap w a) @
       (if a = session r
        then (case delta_entry (AiMessage raw, now, th) of None \<Rightarrow> [] | Some e \<Rightarrow> [e])
        else [])"
proof (cases raw)
  case None
  then show ?thesis by (simp add: ai_message_session)
next
  case (Some msg)
  show ?thesis
  proof (cases "snd (forward_audio th msg r)")
    case True
    then have "isAudioDelta msg" by (rule forward_audio_throws)
    then have "get_prop msg ''type'' \<noteq> Str ''transcript.delta''"
      by (auto simp: isAudioDelta_def)
    with True Some show ?thesis by (simp add: ai_message_session)
  next
    case False
    with Some show ?thesis
      by (auto simp: ai_message_session push_transcript_def merge_fields_def js_or_def
                     split_beta)
  qed
qed

lemma step_transcript:
  "transcript (heap (snd (fst (step cfg i (r, w)))) a) =
     transcript (heap w a) @
       (if a = session r \<and> onAi r
        then (case delta_entry i of None \<Rightarrow> [] | Some e \<Rightarrow> [e])
        else [])"
proof -
  obtain ev now th where i: "i = (ev, now, th)" by (cases i)
  show ?thesis
    unfolding i
    by (cases ev) (simp_all add: split_beta ai_message_transcript)
qed

lemma run_transcript:
  assumes "onAi (fst s)"
  shows "transcript (heap (snd (fst (run cfg is s))) (session (fst s))) =
           transcript (heap (snd s) (session (fst s))) @ List.map_filter delta_entry is"
  using assms
proof (induction "is" arbitrary: s)
  case Nil
  then show ?case by simp
next
  case (Cons i "is")
  obtain r w where s: "s = (r, w)" by (cases s)
  let ?s1 = "fst (step cfg i s)"
  have on: "onAi (fst ?s1)" using Cons.prems by (rule step_keeps)
  have se: "session (fst ?s1) = session (fst s)" by (rule step_keeps)
  from Cons.IH [OF on] se Cons.prems
  show ?case
    unfolding s
    by (simp add: run_Cons step_transcript del: run.simps(2)
             split: option.splits)
qed

text \<open>
  C9. Whatever event is processed, the transcript of every session is at least as long
  afterwards and begins with what it was before. On an active relay the transcript after a run
  is the transcript before it followed by one entry for each \<^verbatim>\<open>transcript.delta\<close> event
  with a text, in the order of receipt, each with the event's \<^verbatim>\<open>from\<close>, or
  \<^verbatim>\<open>'agent'\<close> when it has none, its text, and the time of receipt.
\<close>

theorem transcript_append_only:
  "length (transcript (heap w a)) \<le> length (transcript (heap (snd (fst (step cfg i (r, w)))) a))
   \<and> take (length (transcript (heap w a))) (transcript (heap (snd (fst (step cfg i (r, w)))) a))
       = transcript (heap w a)
   \<and> (onAi r \<longrightarrow>
        transcript (heap (snd (fst (run cfg is (r, w)))) (session r))
          = transcript (heap w (session r)) @ List.map_filter delta_entry is)"
  using run_transcript [of "(r, w)" cfg "is"]
  by (simp add: step_transcript)

theorem transcript_append_only_witness:
  "onAi (fst active_state)
   \<and> transcript (heap (snd (fst (run cfg_hook
        [(AiMessage (Some transcript_msg), 12, no_fault),
         (AiMessage (Some audio_msg), 13, no_fault),
         (AiMessage (Some caller_msg), 14, no_fault)] active_state))) (session (fst active_state)))
       = [\<lparr> e_from = Str ''agent'', e_text = Str ''Buongiorno'', e_t = 12 \<rparr>,
          \<lparr> e_from = Str ''caller'', e_text = Str ''Salve'', e_t = 14 \<rparr>]"
proof -
  have a: "onAi (fst active_state)" "session (fst active_state) = 0"
          "transcript (heap (snd active_state) 0) = []"
    by (simp_all add: active_state_eq first_world_def fresh_session_def)
  have b: "List.map_filter delta_entry
             [(AiMessage (Some transcript_msg), 12, no_fault),
              (AiMessage (Some audio_msg), 13, no_fault),
              (AiMessage (Some caller_msg), 14, no_fault)]
           = [\<lparr> e_from = Str ''agent'', e_text = Str ''Buongiorno'', e_t = 12 \<rparr>,
              \<lparr> e_from = Str ''caller'', e_text = Str ''Salve'', e_t = 14 \<rparr>]"
    by (simp add: transcript_msg_def audio_msg_def caller_msg_def)
  from transcript_append_only [of "snd active_state" 0 cfg_hook
         "(AiMessage (Some transcript_msg), 12, no_fault)" "fst active_state"
         "[(AiMessage (Some transcript_msg), 12, no_fault),
           (AiMessage (Some audio_msg), 13, no_fault),
           (AiMessage (Some caller_msg), 14, no_fault)]"]
       a b
  show ?thesis by simp
qed

subsection \<open>The guard of finalizeAndNotify\<close>

text \<open>
  C10. \<^verbatim>\<open>finalizeAndNotify\<close> returns at its guard when the store has no session for the
  call identifier or when the endpoint \<^verbatim>\<open>N8N_SUMMARY_WEBHOOK\<close> is unset (absent or
  empty): it calls nothing, and it has no state to write to (its embedding returns the trace
  only). With the endpoint unset, no run of a relay, from any state, contains a summary
  request.
\<close>

theorem finalizeAndNotify_guard:
  "(sessions w c = None \<or> \<not> webhook_set cfg \<longrightarrow> finalizeAndNotify cfg c now w = [])
   \<and> (\<not> webhook_set cfg \<longrightarrow> filter is_fetch (snd (run cfg is s)) = [])"
proof (intro conjI impI)
  assume "sessions w c = None \<or> \<not> webhook_set cfg"
  then show "finalizeAndNotify cfg c now w = []"
    by (auto simp: finalizeAndNotify_def webhook_set_def split: option.splits)
next
  assume off: "\<not> webhook_set cfg"
  have "\<not> is_fetch e" if "e \<in> set (snd (run cfg is s))" for e
    using that
  proof (rule run_effects_induct [rotated])
    fix i s' e'
    assume "e' \<in> set (snd (step cfg i s'))"
    with off show "\<not> is_fetch e'" using step_fetch by blast
  qed
  then show "filter is_fetch (snd (run cfg is s)) = []"
    by (simp add: filter_empty_conv)
qed

theorem finalizeAndNotify_guard_witness:
  "\<not> webhook_set cfg_nohook
   \<and> finalizeAndNotify cfg_nohook ''CA1'' 15 (snd connecting_state) = []
   \<and> filter is_fetch (snd (run cfg_nohook call_trace connecting_state)) = []
   \<and> filter is_finalize (snd (run cfg_nohook call_trace connecting_state)) = [Finalize ''CA1'']"
proof -
  have off: "\<not> webhook_set cfg_nohook" by (simp add: webhook_set_def cfg_nohook_def)
  have fin: "filter is_finalize (snd (run cfg_nohook call_trace connecting_state)) = [Finalize ''CA1'']"
    by (simp add: call_trace_def opening_trace_def closing_trace_def connecting_state_eq
                  first_world_def cfg_nohook_def start_msg_def stop_msg_def transcript_msg_def
                  eval_defs)
  from off fin
    finalizeAndNotify_guard [of "snd connecting_state" "''CA1''" cfg_nohook 15 call_trace
                                connecting_state]
  show ?thesis by simp
qed

end
